theory Spec2Isabelle
  imports Main "HOL-Library.Char_ord"
begin

section \<open>Strings and paths of the Go library, as uris.go uses them\<close>

text \<open>
  Go strings are byte sequences; \<^typ>\<open>string\<close> is a list of 8-bit characters, so
  indexing, slicing and comparison below are byte-wise, as in Go. The library functions
  follow the Go 1.10 sources (the toolchain of the repository's Dockerfile).
\<close>

text \<open>A byte within a range, as in Go's \<open>lo <= c && c <= hi\<close>.\<close>

definition byte_in :: "char \<Rightarrow> char \<Rightarrow> char \<Rightarrow> bool" where
  "byte_in lo hi c \<longleftrightarrow> lo \<le> c \<and> c \<le> hi"

definition strings_HasPrefix :: "string \<Rightarrow> string \<Rightarrow> bool" where
  "strings_HasPrefix s pre \<longleftrightarrow> length pre \<le> length s \<and> take (length pre) s = pre"

definition strings_HasSuffix :: "string \<Rightarrow> string \<Rightarrow> bool" where
  "strings_HasSuffix s suf \<longleftrightarrow>
     length suf \<le> length s \<and> drop (length s - length suf) s = suf"

definition strings_TrimPrefix :: "string \<Rightarrow> string \<Rightarrow> string" where
  "strings_TrimPrefix s pre = (if strings_HasPrefix s pre then drop (length pre) s else s)"

text \<open>\<open>strings.Index\<close>: the index of the first instance, \<open>None\<close> for Go's \<open>-1\<close>.\<close>

fun strings_Index :: "string \<Rightarrow> string \<Rightarrow> nat option" where
  "strings_Index [] sub = (if sub = [] then Some 0 else None)"
| "strings_Index (c # s) sub =
     (if strings_HasPrefix (c # s) sub then Some 0
      else map_option Suc (strings_Index s sub))"

fun strings_LastIndex :: "string \<Rightarrow> string \<Rightarrow> nat option" where
  "strings_LastIndex [] sub = (if sub = [] then Some 0 else None)"
| "strings_LastIndex (c # s) sub =
     (case strings_LastIndex s sub of
        Some j \<Rightarrow> Some (Suc j)
      | None \<Rightarrow> if strings_HasPrefix (c # s) sub then Some 0 else None)"

text \<open>\<open>strings.Count\<close> for a one-byte pattern (the only use: \<open>Count(rest, "?")\<close>).\<close>

definition strings_Count :: "string \<Rightarrow> char \<Rightarrow> nat" where
  "strings_Count s c = length (filter (\<lambda>x. x = c) s)"

fun strings_Join :: "string list \<Rightarrow> string \<Rightarrow> string" where
  "strings_Join [] sep = []"
| "strings_Join [e] sep = e"
| "strings_Join (e # es) sep = e @ sep @ strings_Join es sep"

text \<open>\<open>strings.ToLower\<close> on ASCII input (it is applied to a scheme, which
  \<open>getscheme\<close> restricts to ASCII letters, digits, \<open>+\<close>, \<open>-\<close> and \<open>.\<close>).\<close>

definition strings_ToLower :: "string \<Rightarrow> string" where
  "strings_ToLower s =
     map (\<lambda>c. if byte_in CHR ''A'' CHR ''Z'' c then char_of (of_char c + (32::nat)) else c) s"

text \<open>The target is Linux: \<open>os.PathSeparator\<close> is the slash, and \<open>filepath.ToSlash\<close>
  returns its argument when the separator is the slash.\<close>

definition os_PathSeparator :: char where
  "os_PathSeparator = CHR ''/''"

definition filepath_ToSlash :: "string \<Rightarrow> string" where
  "filepath_ToSlash p =
     (if os_PathSeparator = CHR ''/'' then p
      else map (\<lambda>c. if c = os_PathSeparator then CHR ''/'' else c) p)"

subsection \<open>path.Clean and path.Join\<close>

text \<open>The backtracking of a \<open>..\<close> element: \<open>out.w--\<close>, then
  \<open>for out.w > dotdot && out.index(out.w) != '/' { out.w-- }\<close>.\<close>

fun backtrack :: "string \<Rightarrow> nat \<Rightarrow> nat \<Rightarrow> nat" where
  "backtrack out dotdot 0 = 0"
| "backtrack out dotdot (Suc w) =
     (if Suc w > dotdot \<and> out ! (Suc w) \<noteq> CHR ''/'' then backtrack out dotdot w else Suc w)"

text \<open>The main loop of \<open>path.Clean\<close>. \<open>rest\<close> is \<open>path[r:]\<close>; \<open>out\<close> is the
  content of the output buffer, so \<open>out.w\<close> is \<open>length out\<close>.\<close>

function clean_loop :: "bool \<Rightarrow> string \<Rightarrow> string \<Rightarrow> nat \<Rightarrow> string" where
  "clean_loop rooted [] out dotdot = out"
| "clean_loop rooted (c # cs) out dotdot =
     (if c = CHR ''/'' then clean_loop rooted cs out dotdot
      else if c = CHR ''.'' \<and> (cs = [] \<or> hd cs = CHR ''/'') then
        clean_loop rooted cs out dotdot
      else if c = CHR ''.'' \<and> hd cs = CHR ''.'' \<and> (tl cs = [] \<or> hd (tl cs) = CHR ''/'') then
        (if length out > dotdot then
           clean_loop rooted (tl cs) (take (backtrack out dotdot (length out - 1)) out) dotdot
         else if \<not> rooted then
           (let out' = (if length out > 0 then out @ ''/'' else out) @ ''..''
            in clean_loop rooted (tl cs) out' (length out'))
         else clean_loop rooted (tl cs) out dotdot)
      else
        (let out' = (if rooted \<and> length out \<noteq> 1 \<or> \<not> rooted \<and> length out \<noteq> 0
                     then out @ ''/'' else out)
         in clean_loop rooted (dropWhile (\<lambda>x. x \<noteq> CHR ''/'') cs)
              (out' @ c # takeWhile (\<lambda>x. x \<noteq> CHR ''/'') cs) dotdot))"
  by pat_completeness auto
termination
  by (relation "measure (\<lambda>(rooted, rest, out, dotdot). length rest)")
     (auto simp: length_dropWhile_le less_Suc_eq_le)

definition path_Clean :: "string \<Rightarrow> string" where
  "path_Clean p =
     (if p = [] then ''.''
      else
        let rooted = (hd p = CHR ''/'');
            out = (if rooted then clean_loop True (tl p) ''/'' 1
                   else clean_loop False p [] 0)
        in if out = [] then ''.'' else out)"

definition path_Join :: "string list \<Rightarrow> string" where
  "path_Join elem =
     (case dropWhile (\<lambda>e. e = []) elem of
        [] \<Rightarrow> []
      | es \<Rightarrow> path_Clean (strings_Join es ''/''))"

text \<open>On Linux \<open>filepath.Join\<close> is the same function as \<open>path.Join\<close>.\<close>

definition filepath_Join :: "string list \<Rightarrow> string" where
  "filepath_Join elem = path_Join elem"

section \<open>The net/url package: parsing and printing\<close>

datatype url_error =
    MissingProtocolScheme
  | FirstPathSegmentColon
  | EscapeError string
  | InvalidHostError string
  | MissingBracketInHost
  | InvalidPort string
  | InvalidUserinfo

record Userinfo =
  username :: string
  password :: string
  passwordSet :: bool

record URL =
  Scheme :: string
  Opaque :: string
  User :: "Userinfo option"
  Host :: string
  Path :: string
  RawPath :: string
  ForceQuery :: bool
  RawQuery :: string
  Fragment :: string

definition empty_URL :: URL where
  "empty_URL = \<lparr>Scheme = [], Opaque = [], User = None, Host = [], Path = [], RawPath = [],
     ForceQuery = False, RawQuery = [], Fragment = []\<rparr>"

datatype encoding =
    encodePath
  | encodePathSegment
  | encodeHost
  | encodeZone
  | encodeUserPassword
  | encodeQueryComponent
  | encodeFragment

definition is_alnum :: "char \<Rightarrow> bool" where
  "is_alnum c \<longleftrightarrow>
     byte_in CHR ''A'' CHR ''Z'' c \<or> byte_in CHR ''a'' CHR ''z'' c \<or>
     byte_in CHR ''0'' CHR ''9'' c"

definition ishex :: "char \<Rightarrow> bool" where
  "ishex c \<longleftrightarrow>
     byte_in CHR ''0'' CHR ''9'' c \<or> byte_in CHR ''a'' CHR ''f'' c \<or>
     byte_in CHR ''A'' CHR ''F'' c"

definition unhex :: "char \<Rightarrow> nat" where
  "unhex c =
     (if byte_in CHR ''0'' CHR ''9'' c then of_char c - of_char CHR ''0''
      else if byte_in CHR ''a'' CHR ''f'' c then of_char c - of_char CHR ''a'' + 10
      else if byte_in CHR ''A'' CHR ''F'' c then of_char c - of_char CHR ''A'' + 10
      else 0)"

text \<open>\<open>shouldEscape\<close>; \<open>CHR 0x27\<close> is the apostrophe and \<open>CHR 0x22\<close> the double quote.\<close>

definition shouldEscape :: "char \<Rightarrow> encoding \<Rightarrow> bool" where
  "shouldEscape c mode =
     (if is_alnum c then False
      else if (mode = encodeHost \<or> mode = encodeZone) \<and>
              c \<in> set [CHR ''!'', CHR ''$'', CHR ''&'', CHR 0x27, CHR ''('', CHR '')'', CHR ''*'',
                        CHR ''+'', CHR '','', CHR '';'', CHR ''='', CHR '':'', CHR ''['', CHR '']'',
                        CHR ''<'', CHR ''>'', CHR 0x22]
      then False
      else if c \<in> set [CHR ''-'', CHR ''_'', CHR ''.'', CHR ''~''] then False
      else if c \<in> set [CHR ''$'', CHR ''&'', CHR ''+'', CHR '','', CHR ''/'', CHR '':'', CHR '';'',
                        CHR ''='', CHR ''?'', CHR ''@'']
      then (case mode of
              encodePath \<Rightarrow> c = CHR ''?''
            | encodePathSegment \<Rightarrow>
                c = CHR ''/'' \<or> c = CHR '';'' \<or> c = CHR '','' \<or> c = CHR ''?''
            | encodeUserPassword \<Rightarrow>
                c = CHR ''@'' \<or> c = CHR ''/'' \<or> c = CHR ''?'' \<or> c = CHR '':''
            | encodeQueryComponent \<Rightarrow> True
            | encodeFragment \<Rightarrow> False
            | _ \<Rightarrow> True)
      else True)"

text \<open>The first loop of \<open>unescape\<close>: it checks that every \<open>%\<close> is well-formed and
  returns the first error, if any.\<close>

fun unescape_check :: "string \<Rightarrow> encoding \<Rightarrow> url_error option" where
  "unescape_check [] mode = None"
| "unescape_check (c # s) mode =
     (if c = CHR ''%'' then
        (case s of
           a # b # t \<Rightarrow>
             if \<not> ishex a \<or> \<not> ishex b then Some (EscapeError (take 3 (c # s)))
             else if mode = encodeHost \<and> unhex a < 8 \<and> [c, a, b] \<noteq> ''%25''
               then Some (EscapeError [c, a, b])
             else if mode = encodeZone \<and> [c, a, b] \<noteq> ''%25'' \<and>
                     char_of (unhex a * 16 + unhex b) \<noteq> CHR '' '' \<and>
                     shouldEscape (char_of (unhex a * 16 + unhex b)) encodeHost
               then Some (EscapeError [c, a, b])
             else unescape_check t mode
         | _ \<Rightarrow> Some (EscapeError (take 3 (c # s))))
      else if c \<noteq> CHR ''+'' \<and> (mode = encodeHost \<or> mode = encodeZone) \<and>
              c < CHR 0x80 \<and> shouldEscape c encodeHost
        then Some (InvalidHostError [c])
      else unescape_check s mode)"

text \<open>The second loop of \<open>unescape\<close>, run on a string that passed the check.\<close>

fun unescape_decode :: "string \<Rightarrow> encoding \<Rightarrow> string" where
  "unescape_decode (c # a # b # t) mode =
     (if c = CHR ''%'' then char_of (unhex a * 16 + unhex b) # unescape_decode t mode
      else if c = CHR ''+'' \<and> mode = encodeQueryComponent
        then CHR '' '' # unescape_decode (a # b # t) mode
      else c # unescape_decode (a # b # t) mode)"
| "unescape_decode (c # s) mode =
     (if c = CHR ''+'' \<and> mode = encodeQueryComponent then CHR '' '' # unescape_decode s mode
      else c # unescape_decode s mode)"
| "unescape_decode [] mode = []"

definition unescape :: "string \<Rightarrow> encoding \<Rightarrow> url_error + string" where
  "unescape s mode =
     (case unescape_check s mode of
        Some e \<Rightarrow> Inl e
      | None \<Rightarrow>
          if CHR ''%'' \<notin> set s \<and> \<not> (CHR ''+'' \<in> set s \<and> mode = encodeQueryComponent)
          then Inr s else Inr (unescape_decode s mode))"

definition hexdigit :: "nat \<Rightarrow> char" where
  "hexdigit n = ''0123456789ABCDEF'' ! n"

definition escape :: "string \<Rightarrow> encoding \<Rightarrow> string" where
  "escape s mode =
     concat (map (\<lambda>c.
       if c = CHR '' '' \<and> mode = encodeQueryComponent then ''+''
       else if shouldEscape c mode
         then [CHR ''%'', hexdigit (of_char c div 16), hexdigit (of_char c mod 16)]
       else [c]) s)"

text \<open>\<open>getscheme\<close>, scanning \<open>rawurl[i:]\<close>; \<open>pre\<close> is \<open>rawurl[:i]\<close> reversed.\<close>

fun getscheme_from :: "string \<Rightarrow> string \<Rightarrow> string \<Rightarrow> url_error + (string \<times> string)" where
  "getscheme_from rawurl pre [] = Inr ([], rawurl)"
| "getscheme_from rawurl pre (c # s) =
     (if byte_in CHR ''a'' CHR ''z'' c \<or> byte_in CHR ''A'' CHR ''Z'' c then
        getscheme_from rawurl (c # pre) s
      else if byte_in CHR ''0'' CHR ''9'' c \<or> c = CHR ''+'' \<or> c = CHR ''-'' \<or> c = CHR ''.'' then
        (if pre = [] then Inr ([], rawurl) else getscheme_from rawurl (c # pre) s)
      else if c = CHR '':'' then
        (if pre = [] then Inl MissingProtocolScheme else Inr (rev pre, s))
      else Inr ([], rawurl))"

definition getscheme :: "string \<Rightarrow> url_error + (string \<times> string)" where
  "getscheme rawurl = getscheme_from rawurl [] rawurl"

text \<open>\<open>split(s, c, cutc)\<close>.\<close>

definition split_at :: "string \<Rightarrow> string \<Rightarrow> bool \<Rightarrow> string \<times> string" where
  "split_at s c cutc =
     (case strings_Index s c of
        None \<Rightarrow> (s, [])
      | Some i \<Rightarrow> if cutc then (take i s, drop (i + length c) s) else (take i s, drop i s))"

definition validOptionalPort :: "string \<Rightarrow> bool" where
  "validOptionalPort port \<longleftrightarrow>
     port = [] \<or> (hd port = CHR '':'' \<and> (\<forall>b \<in> set (tl port). byte_in CHR ''0'' CHR ''9'' b))"

definition validUserinfo :: "string \<Rightarrow> bool" where
  "validUserinfo s \<longleftrightarrow>
     (\<forall>r \<in> set s. is_alnum r \<or>
        r \<in> set [CHR ''-'', CHR ''.'', CHR ''_'', CHR '':'', CHR ''~'', CHR ''!'', CHR ''$'', CHR ''&'',
                  CHR 0x27, CHR ''('', CHR '')'', CHR ''*'', CHR ''+'', CHR '','', CHR '';'', CHR ''='',
                  CHR ''%'', CHR ''@''])"

definition parseHost :: "string \<Rightarrow> url_error + string" where
  "parseHost host =
     (let bracketed =
        (if strings_HasPrefix host ''['' then
           (case strings_LastIndex host '']'' of
              None \<Rightarrow> Some (Inl MissingBracketInHost)
            | Some i \<Rightarrow>
                if \<not> validOptionalPort (drop (Suc i) host)
                  then Some (Inl (InvalidPort (drop (Suc i) host)))
                else
                  (case strings_Index (take i host) ''%25'' of
                     None \<Rightarrow> None
                   | Some zone \<Rightarrow>
                       Some (case unescape (take zone host) encodeHost of
                               Inl e \<Rightarrow> Inl e
                             | Inr host1 \<Rightarrow>
                                 (case unescape (drop zone (take i host)) encodeZone of
                                    Inl e \<Rightarrow> Inl e
                                  | Inr host2 \<Rightarrow>
                                      (case unescape (drop i host) encodeHost of
                                         Inl e \<Rightarrow> Inl e
                                       | Inr host3 \<Rightarrow> Inr (host1 @ host2 @ host3))))))
         else None)
      in case bracketed of
           Some r \<Rightarrow> r
         | None \<Rightarrow> unescape host encodeHost)"

definition parseAuthority :: "string \<Rightarrow> url_error + (Userinfo option \<times> string)" where
  "parseAuthority authority =
     (let i = strings_LastIndex authority ''@''
      in case parseHost (case i of None \<Rightarrow> authority | Some j \<Rightarrow> drop (Suc j) authority) of
           Inl e \<Rightarrow> Inl e
         | Inr host \<Rightarrow>
             (case i of
                None \<Rightarrow> Inr (None, host)
              | Some j \<Rightarrow>
                  let userinfo = take j authority
                  in if \<not> validUserinfo userinfo then Inl InvalidUserinfo
                     else if CHR '':'' \<notin> set userinfo then
                       (case unescape userinfo encodeUserPassword of
                          Inl e \<Rightarrow> Inl e
                        | Inr u \<Rightarrow>
                            Inr (Some \<lparr>username = u, password = [], passwordSet = False\<rparr>, host))
                     else
                       (case split_at userinfo '':'' True of
                          (un, pw) \<Rightarrow>
                            (case unescape un encodeUserPassword of
                               Inl e \<Rightarrow> Inl e
                             | Inr un' \<Rightarrow>
                                 (case unescape pw encodeUserPassword of
                                    Inl e \<Rightarrow> Inl e
                                  | Inr pw' \<Rightarrow>
                                      Inr (Some \<lparr>username = un', password = pw',
                                                  passwordSet = True\<rparr>, host))))))"

text \<open>\<open>setPath\<close>: \<open>RawPath\<close> is kept only when it differs from the default encoding.\<close>

definition setPath :: "URL \<Rightarrow> string \<Rightarrow> url_error + URL" where
  "setPath u p =
     (case unescape p encodePath of
        Inl e \<Rightarrow> Inl e
      | Inr path \<Rightarrow>
          Inr (u\<lparr>Path := path, RawPath := (if p = escape path encodePath then [] else p)\<rparr>))"

text \<open>\<open>parse(rawurl, viaRequest)\<close> with \<open>viaRequest = false\<close>, as \<open>url.Parse\<close> calls it.\<close>

definition parse :: "string \<Rightarrow> url_error + URL" where
  "parse rawurl =
     (if rawurl = ''*'' then Inr (empty_URL\<lparr>Path := ''*''\<rparr>)
      else
        case getscheme rawurl of
          Inl e \<Rightarrow> Inl e
        | Inr (scheme, rest0) \<Rightarrow>
            let u0 = empty_URL\<lparr>Scheme := strings_ToLower scheme\<rparr>;
                forceq = (strings_HasSuffix rest0 ''?'' \<and> strings_Count rest0 CHR ''?'' = 1);
                rest1 = (if forceq then take (length rest0 - 1) rest0
                         else fst (split_at rest0 ''?'' True));
                u1 = (if forceq then u0\<lparr>ForceQuery := True\<rparr>
                      else u0\<lparr>RawQuery := snd (split_at rest0 ''?'' True)\<rparr>)
            in if \<not> strings_HasPrefix rest1 ''/'' \<and> Scheme u1 \<noteq> [] then
                 Inr (u1\<lparr>Opaque := rest1\<rparr>)
               else if \<not> strings_HasPrefix rest1 ''/'' \<and>
                       (case strings_Index rest1 '':'' of
                          None \<Rightarrow> False
                        | Some colon \<Rightarrow>
                            (case strings_Index rest1 ''/'' of
                               None \<Rightarrow> True
                             | Some slash \<Rightarrow> colon < slash))
                 then Inl FirstPathSegmentColon
               else if (Scheme u1 \<noteq> [] \<or> \<not> strings_HasPrefix rest1 ''///'') \<and>
                       strings_HasPrefix rest1 ''//'' then
                 (case split_at (drop 2 rest1) ''/'' False of
                    (authority, rest2) \<Rightarrow>
                      (case parseAuthority authority of
                         Inl e \<Rightarrow> Inl e
                       | Inr (user, host) \<Rightarrow> setPath (u1\<lparr>User := user, Host := host\<rparr>) rest2))
               else setPath u1 rest1)"

definition url_Parse :: "string \<Rightarrow> url_error + URL" where
  "url_Parse rawurl =
     (case split_at rawurl ''#'' True of
        (u, frag) \<Rightarrow>
          (case parse u of
             Inl e \<Rightarrow> Inl e
           | Inr url \<Rightarrow>
               if frag = [] then Inr url
               else (case unescape frag encodeFragment of
                       Inl e \<Rightarrow> Inl e
                     | Inr f \<Rightarrow> Inr (url\<lparr>Fragment := f\<rparr>))))"

definition validEncodedPath :: "string \<Rightarrow> bool" where
  "validEncodedPath s \<longleftrightarrow>
     (\<forall>c \<in> set s.
        c \<in> set [CHR ''!'', CHR ''$'', CHR ''&'', CHR 0x27, CHR ''('', CHR '')'', CHR ''*'', CHR ''+'',
                  CHR '','', CHR '';'', CHR ''='', CHR '':'', CHR ''@'', CHR ''['', CHR '']'', CHR ''%'']
        \<or> \<not> shouldEscape c encodePath)"

definition EscapedPath :: "URL \<Rightarrow> string" where
  "EscapedPath u =
     (if RawPath u \<noteq> [] \<and> validEncodedPath (RawPath u) \<and>
         unescape (RawPath u) encodePath = Inr (Path u)
      then RawPath u
      else if Path u = ''*'' then ''*''
      else escape (Path u) encodePath)"

definition Userinfo_String :: "Userinfo \<Rightarrow> string" where
  "Userinfo_String ui =
     escape (username ui) encodeUserPassword @
     (if passwordSet ui then '':'' @ escape (password ui) encodeUserPassword else [])"

text \<open>\<open>(*URL).String\<close>; the buffer is the string built so far.\<close>

definition URL_String :: "URL \<Rightarrow> string" where
  "URL_String u =
     (let buf0 = (if Scheme u \<noteq> [] then Scheme u @ '':'' else []);
          buf1 =
            (if Opaque u \<noteq> [] then buf0 @ Opaque u
             else
               let b1 =
                 (if Scheme u \<noteq> [] \<or> Host u \<noteq> [] \<or> User u \<noteq> None then
                    (if Host u \<noteq> [] \<or> Path u \<noteq> [] \<or> User u \<noteq> None then buf0 @ ''//'' else buf0)
                    @ (case User u of None \<Rightarrow> [] | Some ui \<Rightarrow> Userinfo_String ui @ ''@'')
                    @ (if Host u \<noteq> [] then escape (Host u) encodeHost else [])
                  else buf0);
                   path = EscapedPath u;
                   b2 = (if path \<noteq> [] \<and> hd path \<noteq> CHR ''/'' \<and> Host u \<noteq> [] then b1 @ ''/'' else b1);
                   b3 = (if b2 = [] \<and>
                            (case strings_Index path '':'' of
                               None \<Rightarrow> False
                             | Some i \<Rightarrow> strings_Index (take i path) ''/'' = None)
                         then b2 @ ''./'' else b2)
               in b3 @ path);
          buf2 = (if ForceQuery u \<or> RawQuery u \<noteq> [] then buf1 @ ''?'' @ RawQuery u else buf1)
      in if Fragment u \<noteq> [] then buf2 @ ''#'' @ escape (Fragment u) encodeFragment else buf2)"

section \<open>uris.go: the identifier translator\<close>

definition probablyFileURI :: "URL \<Rightarrow> bool" where
  "probablyFileURI candidate \<longleftrightarrow>
     (if \<not> (Scheme candidate = [] \<or> Scheme candidate = ''file'') then False
      else if Path candidate = [] then False
      else True)"

definition rawHasPrefix :: "string \<Rightarrow> string \<Rightarrow> string \<Rightarrow> bool" where
  "rawHasPrefix s pre pathSep =
     (let prefixSlash = (if pre \<noteq> [] \<and> \<not> strings_HasSuffix pre pathSep then pre @ pathSep else [])
      in s = pre \<or> strings_HasPrefix s prefixSlash)"

definition pathHasPrefix :: "string \<Rightarrow> string \<Rightarrow> bool" where
  "pathHasPrefix s pre = rawHasPrefix s pre ''/''"

definition filepathHasPrefix :: "string \<Rightarrow> string \<Rightarrow> bool" where
  "filepathHasPrefix s pre = rawHasPrefix s pre [os_PathSeparator]"

definition rawTrimPrefix :: "string \<Rightarrow> string \<Rightarrow> string \<Rightarrow> string" where
  "rawTrimPrefix s pre pathSep =
     (if s = pre then []
      else strings_TrimPrefix s (if \<not> strings_HasSuffix pre pathSep then pre @ pathSep else pre))"

definition pathTrimPrefix :: "string \<Rightarrow> string \<Rightarrow> string" where
  "pathTrimPrefix s pre = rawTrimPrefix s pre ''/''"

definition filepathTrimPrefix :: "string \<Rightarrow> string \<Rightarrow> string" where
  "filepathTrimPrefix s pre = rawTrimPrefix s pre [os_PathSeparator]"

text \<open>A line written by \<open>log.Println\<close>: the formatted message and the error printed
  after it (no error for \<open>log.Printf\<close> lines).\<close>

datatype 'e log_line = LogLine string "'e option"

text \<open>The two translators return the identifier and the lines they logged.\<close>

definition clientToServerURI_run :: "string \<Rightarrow> string \<Rightarrow> string \<times> url_error log_line list" where
  "clientToServerURI_run uri sysCacheDir =
     (let cacheDir = filepath_ToSlash sysCacheDir
      in case url_Parse uri of
           Inl err \<Rightarrow>
             (uri, [LogLine (''clientToServerURI: err when trying to parse uri '' @ uri) (Some err)])
         | Inr parsedURI \<Rightarrow>
             if \<not> probablyFileURI parsedURI then (uri, [])
             else (URL_String (parsedURI\<lparr>Path := path_Join [cacheDir, Path parsedURI]\<rparr>), []))"

definition clientToServerURI :: "string \<Rightarrow> string \<Rightarrow> string" where
  "clientToServerURI uri sysCacheDir = fst (clientToServerURI_run uri sysCacheDir)"

definition serverToClientURI_run :: "string \<Rightarrow> string \<Rightarrow> string \<times> url_error log_line list" where
  "serverToClientURI_run uri sysCacheDir =
     (let cacheDir = filepath_ToSlash sysCacheDir
      in case url_Parse uri of
           Inl err \<Rightarrow>
             (uri, [LogLine (''serverToClientURI: err when trying to parse uri '' @ uri) (Some err)])
         | Inr parsedURI \<Rightarrow>
             if \<not> probablyFileURI parsedURI then (uri, [])
             else
               (URL_String
                  (if pathHasPrefix (Path parsedURI) cacheDir
                   then parsedURI\<lparr>Path := path_Join [''/'', pathTrimPrefix (Path parsedURI) cacheDir]\<rparr>
                   else parsedURI), []))"

definition serverToClientURI :: "string \<Rightarrow> string \<Rightarrow> string" where
  "serverToClientURI uri sysCacheDir = fst (serverToClientURI_run uri sysCacheDir)"

section \<open>uris.go: the workspace cache\<close>

text \<open>Of the proxy only the session identifier matters here; \<open>sessionID\<close> is the string
  that \<open>p.sessionID.String()\<close> returns. The flag \<open>*cacheDir\<close> is a parameter.\<close>

record cloneProxy =
  sessionID :: string

definition workspaceCacheDir :: "string \<Rightarrow> cloneProxy \<Rightarrow> string" where
  "workspaceCacheDir cacheDir p = filepath_Join [cacheDir, sessionID p]"

text \<open>\<open>os.RemoveAll\<close> is the operating system's: the model takes it as the parameter
  \<open>os_RemoveAll\<close>, which maps the file system and a path to the returned error (\<open>None\<close> is
  \<open>nil\<close>) and the file system afterwards. \<open>cleanWorkspaceCache\<close> returns the error,
  the file system and the lines it logged.\<close>

definition cleanWorkspaceCache ::
  "('fs \<Rightarrow> string \<Rightarrow> 'e option \<times> 'fs) \<Rightarrow> string \<Rightarrow> cloneProxy \<Rightarrow> 'fs \<Rightarrow>
     'e option \<times> 'fs \<times> 'e log_line list" where
  "cleanWorkspaceCache os_RemoveAll cacheDir p fs =
     (let logged = [LogLine (''Removing workspace cache from '' @ workspaceCacheDir cacheDir p) None];
          (err, fs') = os_RemoveAll fs (workspaceCacheDir cacheDir p)
      in (err, fs', logged))"

section \<open>uris.go: the structural walker\<close>

text \<open>
  The values \<open>WalkURIFields\<close> can meet, and the store they refer to. A map, a slice and
  a pointer are references: \<open>VMap a\<close> is a \<open>map[string]interface{}\<close> whose entries are
  in the cell \<open>a\<close> of the store, in the order in which a \<open>range\<close> loop produces them;
  \<open>VSlice a\<close> is a \<open>[]interface{}\<close> whose elements are in the cell \<open>a\<close>;
  \<open>VPtr (Some a)\<close> points to the value in the cell \<open>a\<close>, \<open>VPtr None\<close> is a nil
  pointer. Two references to one cell share it, and a cell may refer to itself. A struct
  and an array are values, copied with what holds them: a struct is the list of its
  fields, each with its name, whether it is exported, and its value; struct types have no
  embedded fields. \<open>VDocURI\<close> is a string of type \<open>lsp.DocumentURI\<close>, \<open>VScalar\<close> a
  value of any kind the walker does not look into (a number, a boolean, a typed slice or
  map), given by its printed form, and \<open>VIface\<close> a struct field of interface type.
\<close>

type_synonym addr = nat

datatype val =
    VNil
  | VStr string
  | VDocURI string
  | VScalar string
  | VMap addr
  | VSlice addr
  | VPtr "addr option"
  | VStruct "(string \<times> bool \<times> val) list"
  | VArray "val list"
  | VIface val

datatype cell =
    CMap "(string \<times> val) list"
  | CSlice "val list"
  | CVal val

type_synonym heap = "cell list"

definition heap_get :: "heap \<Rightarrow> addr \<Rightarrow> cell option" where
  "heap_get h a = (if a < length h then Some (h ! a) else None)"

definition heap_put :: "heap \<Rightarrow> addr \<Rightarrow> cell \<Rightarrow> heap" where
  "heap_put h a c = h[a := c]"

text \<open>The \<open>reflect.Kind\<close> of a field, as far as the walker tests it.\<close>

datatype kind = KString | KPtr | KStruct | KArray | KOther

fun kind_of :: "val \<Rightarrow> kind" where
  "kind_of (VStr s) = KString"
| "kind_of (VDocURI s) = KString"
| "kind_of (VPtr p) = KPtr"
| "kind_of (VStruct fs) = KStruct"
| "kind_of (VArray xs) = KArray"
| "kind_of v = KOther"

text \<open>The ways the walk can end other than by returning: the call of a nil function,
  the panics of \<open>reflect.Value.SetString\<close> and \<open>reflect.Value.Interface\<close>, and a
  nesting of calls deeper than the given bound.\<close>

datatype walk_panic =
    NilFuncCall
  | SetStringUnexported
  | SetStringUnaddressable
  | InterfaceUnexported
  | StackExhausted

type_synonym update_fn = "(string \<Rightarrow> string) option"

text \<open>The type assertions \<open>v.(string)\<close> and \<open>v.(lsp.DocumentURI)\<close>.\<close>

fun string_value :: "val \<Rightarrow> string option" where
  "string_value (VStr s) = Some s"
| "string_value (VDocURI s) = Some s"
| "string_value v = None"

definition uri_keys :: "string list" where
  "uri_keys = [''uri'', ''rootPath'', ''rootUri'', ''url'']"

text \<open>\<open>o[k] = v\<close> and \<open>delete(o, k)\<close> on the entries of a map.\<close>

fun map_assign :: "(string \<times> val) list \<Rightarrow> string \<Rightarrow> val \<Rightarrow> (string \<times> val) list" where
  "map_assign [] k v = [(k, v)]"
| "map_assign ((k', v') # m) k v = (if k' = k then (k, v) # m else (k', v') # map_assign m k v)"

definition map_delete :: "(string \<times> val) list \<Rightarrow> string \<Rightarrow> (string \<times> val) list" where
  "map_delete m k = filter (\<lambda>(k', v'). k' \<noteq> k) m"

text \<open>\<open>string(k)\<close> for an integer \<open>k\<close>: the UTF-8 encoding of the code point, or of
  U+FFFD when \<open>k\<close> is not a valid code point.\<close>

definition string_of_rune :: "nat \<Rightarrow> string" where
  "string_of_rune r =
     (if r < 0x80 then [char_of r]
      else if r < 0x800 then [char_of (0xC0 + r div 64), char_of (0x80 + r mod 64)]
      else if (0xD800 \<le> r \<and> r \<le> 0xDFFF) \<or> 0x10FFFF < r then [CHR 0xEF, CHR 0xBF, CHR 0xBD]
      else if r < 0x10000 then
        [char_of (0xE0 + r div 4096), char_of (0x80 + r div 64 mod 64), char_of (0x80 + r mod 64)]
      else
        [char_of (0xF0 + r div 262144), char_of (0x80 + r div 4096 mod 64),
         char_of (0x80 + r div 64 mod 64), char_of (0x80 + r mod 64)])"

text \<open>\<open>rv.FieldByName("URI")\<close> and, when the field is of kind String and \<open>update\<close> is
  not nil, \<open>fv.SetString(update(fv.String()))\<close>, which keeps the type of the field.
  \<open>SetString\<close> panics on a field that is not exported and on a value that is not
  addressable. A struct is addressable when the walker reached it through a pointer:
  \<open>place\<close> is then the cell of the struct, and the string is written there; for a struct
  held by value \<open>place\<close> is \<open>None\<close>.\<close>

fun set_field ::
  "(string \<times> bool \<times> val) list \<Rightarrow> string \<Rightarrow> val \<Rightarrow> (string \<times> bool \<times> val) list" where
  "set_field [] n v = []"
| "set_field ((n', e, v') # fs) n v =
     (if n' = n then (n', e, v) # fs else (n', e, v') # set_field fs n v)"

fun set_string :: "val \<Rightarrow> string \<Rightarrow> val" where
  "set_string (VDocURI s) t = VDocURI t"
| "set_string v t = VStr t"

definition set_URI ::
  "update_fn \<Rightarrow> addr option \<Rightarrow> (string \<times> bool \<times> val) list \<Rightarrow> heap \<Rightarrow> walk_panic + heap" where
  "set_URI update place fs h =
     (case find (\<lambda>(n, e, v). n = ''URI'') fs of
        None \<Rightarrow> Inr h
      | Some (n, e, v) \<Rightarrow>
          (case string_value v of
             None \<Rightarrow> Inr h
           | Some s \<Rightarrow>
               (case update of
                  None \<Rightarrow> Inr h
                | Some f \<Rightarrow>
                    if \<not> e then Inl SetStringUnexported
                    else
                      (case place of
                         None \<Rightarrow> Inl SetStringUnaddressable
                       | Some a \<Rightarrow>
                           Inr (heap_put h a
                                  (CVal (VStruct (set_field fs ''URI'' (set_string v (f s))))))))))"

text \<open>
  The three loops of \<open>walk\<close>, with the recursive call as the parameter \<open>walk\<close>; each
  returns the store as the loop leaves it.

  \<open>range_map\<close> is \<open>for k, v := range o\<close> over the map in the cell \<open>a\<close>: \<open>ks\<close> are
  the keys still to be produced. Every step reads the map as it is then: an entry removed
  before the loop reaches it is not produced, and the value walked is the one the map
  holds when the key is produced. The loop itself deletes and inserts (\<open>delete(o, k)\<close>,
  \<open>o[string(new_uri)] = v\<close>), and Go leaves open whether an entry created during the
  loop is produced by it. The parameter \<open>again\<close> settles this: a created key that occurs
  in \<open>again\<close> is produced later by the same loop, once for each occurrence; with the
  empty list no created entry is produced.
\<close>

type_synonym walker = "val \<Rightarrow> string \<Rightarrow> heap \<Rightarrow> walk_panic + heap"

function range_map ::
  "walker \<Rightarrow> update_fn \<Rightarrow> string \<Rightarrow> addr \<Rightarrow> string list \<Rightarrow> string list \<Rightarrow> heap \<Rightarrow>
     walk_panic + heap" where
  "range_map walk update parent a again [] h = Inr h"
| "range_map walk update parent a again (k # ks) h =
     (case heap_get h a of
        Some (CMap m) \<Rightarrow>
          (case map_of m k of
             None \<Rightarrow> range_map walk update parent a again ks h
           | Some v \<Rightarrow>
               if k \<in> set uri_keys \<and> string_value v \<noteq> None then
                 range_map walk update parent a again ks
                   (case update of
                      None \<Rightarrow> h
                    | Some f \<Rightarrow>
                        heap_put h a (CMap (map_assign m k (VDocURI (f (the (string_value v)))))))
               else if parent = ''changes'' then
                 (case update of
                    None \<Rightarrow> Inl NilFuncCall
                  | Some f \<Rightarrow>
                      (case walk v k
                              (heap_put h a (CMap (map_assign (map_delete m k) (f k) v))) of
                         Inl e \<Rightarrow> Inl e
                       | Inr h' \<Rightarrow>
                           if map_of (map_delete m k) (f k) = None \<and> f k \<in> set again
                           then range_map walk update parent a (remove1 (f k) again) (ks @ [f k]) h'
                           else range_map walk update parent a again ks h'))
               else
                 (case walk v k h of
                    Inl e \<Rightarrow> Inl e
                  | Inr h' \<Rightarrow> range_map walk update parent a again ks h'))
      | _ \<Rightarrow> Inr h)"
  by pat_completeness auto
termination
  by (relation "measure (\<lambda>(walk, update, parent, a, again, ks, h). length ks + length again)")
     (auto simp: length_remove1 dest: length_pos_if_in_set)

text \<open>\<open>for k, v := range o\<close> over the slice in the cell \<open>a\<close>; the indices are those
  of the slice when the loop starts.\<close>

fun range_slice :: "walker \<Rightarrow> addr \<Rightarrow> nat list \<Rightarrow> heap \<Rightarrow> walk_panic + heap" where
  "range_slice walk a [] h = Inr h"
| "range_slice walk a (i # is) h =
     (case heap_get h a of
        Some (CSlice xs) \<Rightarrow>
          (if i < length xs then
             (case walk (xs ! i) (string_of_rune i) h of
                Inl e \<Rightarrow> Inl e
              | Inr h' \<Rightarrow> range_slice walk a is h')
           else range_slice walk a is h)
      | _ \<Rightarrow> Inr h)"

text \<open>The loop over the fields of a struct, \<open>rv.Field(i)\<close> for the indices \<open>i\<close>: of an
  addressable struct the field is read from its cell, of a struct held by value from the
  copy \<open>fs\<close>. \<open>fv.Interface()\<close> panics on a field that is not exported.\<close>

fun walk_fields ::
  "walker \<Rightarrow> addr option \<Rightarrow> (string \<times> bool \<times> val) list \<Rightarrow> nat list \<Rightarrow> heap \<Rightarrow>
     walk_panic + heap" where
  "walk_fields walk place fs [] h = Inr h"
| "walk_fields walk place fs (i # is) h =
     (let now = (case place of
                   None \<Rightarrow> fs
                 | Some a \<Rightarrow>
                     (case heap_get h a of Some (CVal (VStruct fs')) \<Rightarrow> fs' | _ \<Rightarrow> fs))
      in if i < length now then
           (case now ! i of
              (n, e, v) \<Rightarrow>
                if kind_of v = KPtr \<or> kind_of v = KStruct \<or> kind_of v = KArray then
                  (if \<not> e then Inl InterfaceUnexported
                   else
                     (case walk v ''n/a'' h of
                        Inl err \<Rightarrow> Inl err
                      | Inr h' \<Rightarrow> walk_fields walk place fs is h'))
                else walk_fields walk place fs is h)
         else walk_fields walk place fs is h)"

definition walk_struct ::
  "walker \<Rightarrow> update_fn \<Rightarrow> addr option \<Rightarrow> (string \<times> bool \<times> val) list \<Rightarrow> heap \<Rightarrow>
     walk_panic + heap" where
  "walk_struct walk update place fs h =
     (case set_URI update place fs h of
        Inl e \<Rightarrow> Inl e
      | Inr h1 \<Rightarrow> walk_fields walk place fs [0..<length fs] h1)"

text \<open>The closure \<open>walk\<close>. Its first argument bounds the nesting of its calls: a walk
  that would nest deeper ends with \<open>StackExhausted\<close>, so that a walk that never returns
  exhausts every bound. The walk changes nothing but the store, which it returns.\<close>

primrec walk :: "nat \<Rightarrow> string list \<Rightarrow> update_fn \<Rightarrow> walker" where
  "walk 0 again update = (\<lambda>v parent h. Inl StackExhausted)"
| "walk (Suc d) again update = (\<lambda>v parent h.
     case v of
       VMap a \<Rightarrow>
         (case heap_get h a of
            Some (CMap m) \<Rightarrow>
              range_map (walk d again update) update parent a again (map fst m) h
          | _ \<Rightarrow> Inr h)
     | VSlice a \<Rightarrow>
         (case heap_get h a of
            Some (CSlice xs) \<Rightarrow> range_slice (walk d again update) a [0..<length xs] h
          | _ \<Rightarrow> Inr h)
     | VPtr (Some a) \<Rightarrow>
         (case heap_get h a of
            Some (CVal (VStruct fs)) \<Rightarrow> walk_struct (walk d again update) update (Some a) fs h
          | _ \<Rightarrow> Inr h)
     | VStruct fs \<Rightarrow> walk_struct (walk d again update) update None fs h
     | _ \<Rightarrow> Inr h)"

definition WalkURIFields ::
  "nat \<Rightarrow> string list \<Rightarrow> val \<Rightarrow> update_fn \<Rightarrow> heap \<Rightarrow> walk_panic + heap" where
  "WalkURIFields depth again o' update h = walk depth again update o' ''top'' h"

section \<open>Rooted clean paths\<close>

text \<open>The paths on which the translators are inverse to each other: a slash before each
  element, where an element is a non-empty string without slash other than \<open>.\<close> and
  \<open>..\<close>; no element at all is the root \<open>/\<close>. These are the rooted paths that
  \<open>path.Clean\<close> leaves as they are.\<close>

definition clean_elem :: "string \<Rightarrow> bool" where
  "clean_elem e \<longleftrightarrow> e \<noteq> [] \<and> e \<noteq> ''.'' \<and> e \<noteq> ''..'' \<and> CHR ''/'' \<notin> set e"

definition rooted_path :: "string list \<Rightarrow> string" where
  "rooted_path elems = (if elems = [] then ''/'' else concat (map (\<lambda>e. CHR ''/'' # e) elems))"

text \<open>What the loop of \<open>path.Clean\<close> does to the buffer for one element of a
  rooted path.\<close>

definition add_elem :: "string \<Rightarrow> string \<Rightarrow> string" where
  "add_elem out e = (if length out \<noteq> 1 then out @ ''/'' else out) @ e"

text \<open>One byte of a path, escaped.\<close>

definition esc1 :: "char \<Rightarrow> string" where
  "esc1 c = (if shouldEscape c encodePath
             then [CHR ''%'', hexdigit (of_char c div 16), hexdigit (of_char c mod 16)] else [c])"

declare clean_loop.simps [simp del]

section \<open>Properties of the identifier translator\<close>

subsection \<open>Evaluations at concrete identifiers\<close>

lemma parse_inmemory:
  "url_Parse ''inmemory://model/1'' =
     Inr (empty_URL\<lparr>Scheme := ''inmemory'', Host := ''model'', Path := ''/1''\<rparr>)"
  by code_simp

lemma parse_lone_colon: "url_Parse '':'' = Inl MissingProtocolScheme"
  by code_simp

lemma parse_other_x: "url_Parse ''/other/x/'' = Inr (empty_URL\<lparr>Path := ''/other/x/''\<rparr>)"
  by code_simp

lemma serverToClientURI_partial_segment:
  "serverToClientURI ''/cache12/x'' ''/cache1'' = ''/cache12/x''"
  by code_simp

lemma serverToClientURI_whole_segment:
  "serverToClientURI ''/cache1/x'' ''/cache1'' = ''/x''"
  by code_simp

lemma clientToServerURI_example:
  "clientToServerURI ''file:///a/b.json'' ''/cache/S1'' = ''file:///cache/S1/a/b.json''"
  by code_simp

subsection \<open>The prefix test\<close>

text \<open>With a cache directory that is not empty and does not end with the separator, an
  identifier whose path is neither the cache directory nor below it keeps its path: the
  result is the parsed identifier printed again.\<close>

lemma serverToClientURI_outside_cache:
  assumes "url_Parse uri = Inr u" and "probablyFileURI u"
    and "c \<noteq> []" and "\<not> strings_HasSuffix c ''/''"
    and "Path u \<noteq> c" and "\<not> strings_HasPrefix (Path u) (c @ ''/'')"
  shows "serverToClientURI uri c = URL_String u"
  using assms
  by (simp add: serverToClientURI_def serverToClientURI_run_def filepath_ToSlash_def
        os_PathSeparator_def pathHasPrefix_def rawHasPrefix_def)

text \<open>
  Claim C3. \<open>serverToClientURI\<close> should rewrite an identifier only when its path has the
  cache directory as a prefix that ends at a directory boundary. The two examples of the
  claim hold (\<open>serverToClientURI_partial_segment\<close>, \<open>serverToClientURI_whole_segment\<close>),
  but with the cache directory \<open>/cache/\<close> the identifier \<open>/other/x/\<close>, whose path does not
  start with \<open>/cache/\<close>, passes \<open>pathHasPrefix\<close> and is rewritten to \<open>/other/x\<close>:
  \<open>rawHasPrefix\<close> leaves \<open>prefixSlash\<close> empty when the prefix already ends with the
  separator, where \<open>rawTrimPrefix\<close> keeps the prefix.
\<close>

theorem serverToClientURI_rewrites_outside_cache:
  "\<not> strings_HasPrefix ''/other/x/'' ''/cache/'' \<and>
   pathHasPrefix ''/other/x/'' ''/cache/'' \<and>
   pathTrimPrefix ''/other/x/'' ''/cache/'' = ''/other/x/'' \<and>
   serverToClientURI ''/other/x/'' ''/cache/'' = ''/other/x''"
  by code_simp

text \<open>
  Claim C10. For every string \<open>s\<close> and every non-empty prefix that ends with the path
  separator, \<open>rawHasPrefix\<close> returns true; so when the cache directory given to
  \<open>serverToClientURI\<close> ends with a slash, every file-like identifier takes the rewriting
  branch: its path becomes \<open>path.Join("/", pathTrimPrefix(path, cacheDir))\<close>.
\<close>

theorem rawHasPrefix_trailing_separator:
  "(pre \<noteq> [] \<and> strings_HasSuffix pre sep \<longrightarrow> rawHasPrefix s pre sep) \<and>
   (c \<noteq> [] \<and> strings_HasSuffix c ''/'' \<and> url_Parse uri = Inr u \<and> probablyFileURI u \<longrightarrow>
      serverToClientURI uri c =
        URL_String (u\<lparr>Path := path_Join [''/'', pathTrimPrefix (Path u) c]\<rparr>))"
  by (simp add: rawHasPrefix_def strings_HasPrefix_def serverToClientURI_def
        serverToClientURI_run_def filepath_ToSlash_def os_PathSeparator_def pathHasPrefix_def)

theorem rawHasPrefix_trailing_separator_witness:
  "''/cache/'' \<noteq> [] \<and> strings_HasSuffix ''/cache/'' ''/'' \<and>
   url_Parse ''/other/x/'' = Inr (empty_URL\<lparr>Path := ''/other/x/''\<rparr>) \<and>
   probablyFileURI (empty_URL\<lparr>Path := ''/other/x/''\<rparr>) \<and>
   rawHasPrefix ''/other/x/'' ''/cache/'' ''/'' \<and>
   serverToClientURI ''/other/x/'' ''/cache/'' =
     URL_String (empty_URL\<lparr>Path := path_Join [''/'', pathTrimPrefix ''/other/x/'' ''/cache/'']\<rparr>)"
proof -
  have h1: "''/cache/'' \<noteq> [] \<and> strings_HasSuffix ''/cache/'' ''/''"
    by code_simp
  have h2: "probablyFileURI (empty_URL\<lparr>Path := ''/other/x/''\<rparr>)"
    by code_simp
  show ?thesis
    using rawHasPrefix_trailing_separator
      [of "''/cache/''" "''/''" "''/other/x/''" "''/cache/''" "''/other/x/''"
          "empty_URL\<lparr>Path := ''/other/x/''\<rparr>"]
      h1 h2 parse_other_x
    by simp
qed

subsection \<open>Identifiers that are not file-like, and identifiers that do not parse\<close>

text \<open>
  Claim C4. An identifier that parses with a scheme other than the empty one and \<open>file\<close>,
  or with an empty path, is returned unchanged by both translators, whatever the cache
  directory.
\<close>

theorem not_file_like_unchanged:
  assumes "url_Parse uri = Inr u"
    and "(Scheme u \<noteq> [] \<and> Scheme u \<noteq> ''file'') \<or> Path u = []"
  shows "clientToServerURI uri c = uri \<and> serverToClientURI uri c = uri"
  using assms
  by (auto simp: clientToServerURI_def serverToClientURI_def clientToServerURI_run_def
        serverToClientURI_run_def probablyFileURI_def Let_def)

theorem not_file_like_unchanged_witness:
  "url_Parse ''inmemory://model/1'' =
     Inr (empty_URL\<lparr>Scheme := ''inmemory'', Host := ''model'', Path := ''/1''\<rparr>) \<and>
   clientToServerURI ''inmemory://model/1'' ''/cache/S1'' = ''inmemory://model/1'' \<and>
   serverToClientURI ''inmemory://model/1'' ''/cache/S1'' = ''inmemory://model/1''"
proof -
  have "Scheme (empty_URL\<lparr>Scheme := ''inmemory'', Host := ''model'', Path := ''/1''\<rparr>) \<noteq> [] \<and>
        Scheme (empty_URL\<lparr>Scheme := ''inmemory'', Host := ''model'', Path := ''/1''\<rparr>) \<noteq> ''file''"
    by simp
  then show ?thesis
    using not_file_like_unchanged [OF parse_inmemory, of "''/cache/S1''"] parse_inmemory
    by blast
qed

text \<open>
  Claim C8. When \<open>url.Parse\<close> fails, each translator writes one log line (its message
  and the error) and returns the identifier it was given; the result is a plain
  identifier, so the failure cannot reach the caller as an error.
\<close>

theorem parse_failure_logged_and_passed_through:
  assumes "url_Parse uri = Inl err"
  shows "clientToServerURI_run uri c =
           (uri, [LogLine (''clientToServerURI: err when trying to parse uri '' @ uri) (Some err)]) \<and>
         serverToClientURI_run uri c =
           (uri, [LogLine (''serverToClientURI: err when trying to parse uri '' @ uri) (Some err)]) \<and>
         clientToServerURI uri c = uri \<and> serverToClientURI uri c = uri"
  using assms
  by (simp add: clientToServerURI_def serverToClientURI_def clientToServerURI_run_def
        serverToClientURI_run_def)

theorem parse_failure_logged_and_passed_through_witness:
  "url_Parse '':'' = Inl MissingProtocolScheme \<and>
   clientToServerURI_run '':'' ''/cache/S1'' =
     ('':'', [LogLine ''clientToServerURI: err when trying to parse uri :''
                (Some MissingProtocolScheme)]) \<and>
   serverToClientURI_run '':'' ''/cache/S1'' =
     ('':'', [LogLine ''serverToClientURI: err when trying to parse uri :''
                (Some MissingProtocolScheme)]) \<and>
   clientToServerURI '':'' ''/cache/S1'' = '':'' \<and> serverToClientURI '':'' ''/cache/S1'' = '':''"
  using parse_failure_logged_and_passed_through [OF parse_lone_colon, of "''/cache/S1''"]
    parse_lone_colon
  by simp

subsection \<open>path.Clean on rooted clean paths\<close>

lemma clean_loop_Nil [simp]: "clean_loop rooted [] out dotdot = out"
  by (simp add: clean_loop.simps)

lemma clean_loop_slash [simp]:
  "clean_loop rooted (CHR ''/'' # rest) out dotdot = clean_loop rooted rest out dotdot"
  by (simp add: clean_loop.simps)

lemma takeWhile_no_slash:
  "CHR ''/'' \<notin> set cs \<Longrightarrow> rest = [] \<or> hd rest = CHR ''/'' \<Longrightarrow>
   takeWhile (\<lambda>x. x \<noteq> CHR ''/'') (cs @ rest) = cs \<and> dropWhile (\<lambda>x. x \<noteq> CHR ''/'') (cs @ rest) = rest"
  by (cases rest) (auto simp: takeWhile_append dropWhile_append)

lemma clean_loop_elem:
  assumes "clean_elem e" and "rest = [] \<or> hd rest = CHR ''/''"
  shows "clean_loop True (e @ rest) out dotdot = clean_loop True rest (add_elem out e) dotdot"
proof -
  from assms(1) obtain c cs where e: "e = c # cs" and c: "c \<noteq> CHR ''/''" and cs: "CHR ''/'' \<notin> set cs"
    by (cases e) (auto simp: clean_elem_def)
  have n2: "\<not> (c = CHR ''.'' \<and> (cs @ rest = [] \<or> hd (cs @ rest) = CHR ''/''))"
    using assms e cs by (cases cs) (auto simp: clean_elem_def)
  have n3: "\<not> (c = CHR ''.'' \<and> hd (cs @ rest) = CHR ''.'' \<and>
               (tl (cs @ rest) = [] \<or> hd (tl (cs @ rest)) = CHR ''/''))"
  proof (cases cs)
    case Nil
    then show ?thesis using assms e by (auto simp: clean_elem_def)
  next
    case (Cons d ds)
    then show ?thesis using assms e cs by (cases ds) (auto simp: clean_elem_def)
  qed
  have "clean_loop True (c # cs @ rest) out dotdot =
        (let out' = (if True \<and> length out \<noteq> 1 \<or> \<not> True \<and> length out \<noteq> 0
                     then out @ ''/'' else out)
         in clean_loop True (dropWhile (\<lambda>x. x \<noteq> CHR ''/'') (cs @ rest))
              (out' @ c # takeWhile (\<lambda>x. x \<noteq> CHR ''/'') (cs @ rest)) dotdot)"
    by (subst clean_loop.simps, subst if_not_P [OF c], subst if_not_P [OF n2],
        subst if_not_P [OF n3], rule refl)
  then show ?thesis
    using takeWhile_no_slash [OF cs assms(2)]
    by (simp add: e add_elem_def Let_def)
qed

lemma clean_loop_elems:
  assumes "list_all clean_elem es" and "rest = [] \<or> hd rest = CHR ''/''"
  shows "clean_loop True (concat (map (\<lambda>e. CHR ''/'' # e) es) @ rest) out dotdot =
         clean_loop True rest (foldl add_elem out es) dotdot"
  using assms
proof (induction es arbitrary: out)
  case Nil
  then show ?case by simp
next
  case (Cons e es)
  have r: "concat (map (\<lambda>e. CHR ''/'' # e) es) @ rest = [] \<or>
           hd (concat (map (\<lambda>e. CHR ''/'' # e) es) @ rest) = CHR ''/''"
    using Cons.prems(2) by (cases es) auto
  show ?case
    using Cons clean_loop_elem [OF _ r, of e] by simp
qed

lemma foldl_add_elem_long:
  "length out \<noteq> 1 \<Longrightarrow> out \<noteq> [] \<Longrightarrow> foldl add_elem out es = out @ concat (map (\<lambda>e. CHR ''/'' # e) es)"
  by (induction es arbitrary: out) (auto simp: add_elem_def)

lemma foldl_add_elem_root:
  "list_all clean_elem es \<Longrightarrow> foldl add_elem ''/'' es = rooted_path es"
proof (cases es)
  case Nil
  then show ?thesis by (simp add: rooted_path_def)
next
  case (Cons e es')
  assume "list_all clean_elem es"
  then have "e \<noteq> []" using Cons by (simp add: clean_elem_def)
  then show ?thesis
    using Cons foldl_add_elem_long [of "CHR ''/'' # e" es']
    by (simp add: rooted_path_def add_elem_def)
qed

lemma foldl_add_elem_rooted:
  "list_all clean_elem cs \<Longrightarrow> list_all clean_elem es \<Longrightarrow> 
   foldl add_elem (rooted_path cs) es = rooted_path (cs @ es)"
  using foldl_add_elem_root [of "cs @ es"] foldl_add_elem_root [of cs] by simp

lemma rooted_path_nonempty [simp]: "rooted_path es \<noteq> []"
  by (cases es) (auto simp: rooted_path_def)

lemma hd_rooted_path [simp]: "hd (rooted_path es) = CHR ''/''"
  by (cases es) (auto simp: rooted_path_def)

text \<open>A string of slashes and clean elements, cleaned from the root.\<close>

lemma rooted_path_as_input:
  "list_all clean_elem es \<Longrightarrow> rest = [] \<or> hd rest = CHR ''/'' \<Longrightarrow> out \<noteq> [] \<Longrightarrow>
   clean_loop True (rooted_path es @ rest) out dotdot = clean_loop True rest (foldl add_elem out es) dotdot"
  using clean_loop_elems [of es rest out dotdot]
  by (cases "es = []") (simp_all add: rooted_path_def)

lemma path_Clean_rooted:
  assumes "p \<noteq> []" "hd p = CHR ''/''"
  shows "path_Clean p = (let out = clean_loop True p ''/'' 1 in if out = [] then ''.'' else out)"
  using assms by (cases p) (auto simp: path_Clean_def Let_def)

lemma path_Clean_rooted_path:
  "list_all clean_elem es \<Longrightarrow> path_Clean (rooted_path es) = rooted_path es"
  using rooted_path_as_input [of es "[]" "''/''" 1]
  by (simp add: path_Clean_rooted foldl_add_elem_root Let_def)

lemma path_Join_rooted:
  assumes "list_all clean_elem cs" "list_all clean_elem es"
  shows "path_Join [rooted_path cs, rooted_path es] = rooted_path (cs @ es)"
proof -
  have "clean_loop True (rooted_path cs @ CHR ''/'' # rooted_path es) ''/'' 1
        = clean_loop True (CHR ''/'' # rooted_path es) (rooted_path cs) 1"
    using rooted_path_as_input [OF assms(1), of "CHR ''/'' # rooted_path es" "''/''" 1]
      foldl_add_elem_root [OF assms(1)] by simp
  also have "\<dots> = clean_loop True (rooted_path es @ []) (rooted_path cs) 1"
    by simp
  also have "\<dots> = rooted_path (cs @ es)"
    using rooted_path_as_input [OF assms(2), of "[]" "rooted_path cs" 1]
      foldl_add_elem_rooted [OF assms] by simp
  finally show ?thesis
    by (simp add: path_Join_def path_Clean_rooted Let_def)
qed

lemma path_Join_empty_first:
  "list_all clean_elem es \<Longrightarrow> path_Join [[], rooted_path es] = rooted_path es"
  using rooted_path_nonempty [of es] path_Clean_rooted_path [of es]
  by (cases "rooted_path es") (simp_all add: path_Join_def)

subsection \<open>The prefix test and trimming on rooted clean paths\<close>

lemma HasSuffix_single: "s \<noteq> [] \<Longrightarrow> strings_HasSuffix s [c] \<longleftrightarrow> last s = c"
proof -
  assume "s \<noteq> []"
  then have "drop (length s - 1) s = [last s]"
    by (induction s) (auto simp: Suc_diff_le not_less_eq_eq [symmetric] drop_Cons' )
  then show ?thesis using \<open>s \<noteq> []\<close>
    by (cases s) (auto simp: strings_HasSuffix_def)
qed

lemma HasPrefix_append [simp]: "strings_HasPrefix (p @ s) p"
  by (simp add: strings_HasPrefix_def)

lemma HasPrefix_Nil [simp]: "strings_HasPrefix s []"
  by (simp add: strings_HasPrefix_def)

lemma TrimPrefix_append [simp]: "strings_TrimPrefix (p @ s) p = s"
  by (simp add: strings_TrimPrefix_def)

lemma last_rooted_path:
  "list_all clean_elem es \<Longrightarrow> es \<noteq> [] \<Longrightarrow> last (rooted_path es) \<noteq> CHR ''/''"
proof (induction es)
  case Nil
  then show ?case by simp
next
  case (Cons e es)
  then have e: "e \<noteq> []" "CHR ''/'' \<notin> set e" by (auto simp: clean_elem_def)
  show ?case
  proof (cases "es = []")
    case True
    have "last e \<in> set e" using e(1) by (rule last_in_set)
    then have "last e \<noteq> CHR ''/''" using e(2) by metis
    then show ?thesis using True e by (simp add: rooted_path_def)
  next
    case False
    then show ?thesis using Cons by (auto simp: rooted_path_def)
  qed
qed

lemma rooted_path_root_suffix [simp]: "strings_HasSuffix (rooted_path []) ''/''"
  by (simp add: rooted_path_def strings_HasSuffix_def)

lemma rooted_path_tl: "es \<noteq> [] \<Longrightarrow> CHR ''/'' # tl (rooted_path es) = rooted_path es"
  by (cases es) (simp_all add: rooted_path_def)

lemma rooted_path_append:
  "es \<noteq> [] \<Longrightarrow> cs \<noteq> [] \<Longrightarrow> rooted_path (cs @ es) = rooted_path cs @ rooted_path es"
  by (simp add: rooted_path_def)

lemma rooted_path_HasSuffix:
  "list_all clean_elem cs \<Longrightarrow> strings_HasSuffix (rooted_path cs) ''/'' \<longleftrightarrow> cs = []"
  using last_rooted_path [of cs]
  by (auto simp: HasSuffix_single) (simp add: rooted_path_def)

lemma pathHasPrefix_under:
  assumes "list_all clean_elem cs" "list_all clean_elem es"
  shows "pathHasPrefix (rooted_path (cs @ es)) (rooted_path cs)"
proof (cases "cs = []")
  case True
  then show ?thesis
    by (simp add: pathHasPrefix_def rawHasPrefix_def)
next
  case False
  show ?thesis
  proof (cases "es = []")
    case True
    then show ?thesis by (simp add: pathHasPrefix_def rawHasPrefix_def)
  next
    case e: False
    have "rooted_path (cs @ es) = (rooted_path cs @ ''/'') @ tl (rooted_path es)"
      using rooted_path_append [OF e False] rooted_path_tl [OF e] by simp
    then show ?thesis
      using False HasPrefix_append [of "rooted_path cs @ ''/''" "tl (rooted_path es)"]
      by (simp add: pathHasPrefix_def rawHasPrefix_def rooted_path_HasSuffix [OF assms(1)])
  qed
qed

lemma pathTrimPrefix_under:
  assumes "list_all clean_elem cs" "list_all clean_elem es"
  shows "pathTrimPrefix (rooted_path (cs @ es)) (rooted_path cs) =
           (if es = [] then [] else tl (rooted_path es))"
proof (cases "es = []")
  case True
  then show ?thesis by (simp add: pathTrimPrefix_def rawTrimPrefix_def)
next
  case e: False
  show ?thesis
  proof (cases "cs = []")
    case True
    have eq: "rooted_path es = ''/'' @ tl (rooted_path es)"
      using rooted_path_tl [OF e] by simp
    have ne: "rooted_path es \<noteq> ''/''"
      using e assms(2) by (cases es) (auto simp: rooted_path_def clean_elem_def)
    have "strings_TrimPrefix (rooted_path es) ''/'' = tl (rooted_path es)"
      using TrimPrefix_append [of "''/''" "tl (rooted_path es)"] eq by simp
    then show ?thesis
      using True e ne
      by (simp add: pathTrimPrefix_def rawTrimPrefix_def) (simp add: rooted_path_def)
  next
    case False
    have eq: "rooted_path (cs @ es) = (rooted_path cs @ ''/'') @ tl (rooted_path es)"
      using rooted_path_append [OF e False] rooted_path_tl [OF e] by simp
    have "length (rooted_path (cs @ es)) \<noteq> length (rooted_path cs)"
      unfolding eq by simp
    then have ne: "rooted_path (cs @ es) \<noteq> rooted_path cs" by metis
    show ?thesis
      using e False ne TrimPrefix_append [of "rooted_path cs @ ''/''" "tl (rooted_path es)"] eq
      by (simp add: pathTrimPrefix_def rawTrimPrefix_def rooted_path_HasSuffix [OF assms(1)])
  qed
qed

lemma path_Join_root_rest:
  assumes "list_all clean_elem es"
  shows "path_Join [''/'', (if es = [] then [] else tl (rooted_path es))] = rooted_path es"
proof (cases "es = []")
  case True
  have "path_Clean ''//'' = ''/''" by code_simp
  then show ?thesis using True by (simp add: path_Join_def rooted_path_def)
next
  case False
  then have eq: "CHR ''/'' # tl (rooted_path es) = rooted_path es"
    by (rule rooted_path_tl)
  have "path_Clean (CHR ''/'' # rooted_path es) = rooted_path es"
    using rooted_path_as_input [OF assms, of "[]" "''/''" 1] foldl_add_elem_root [OF assms]
    by (simp add: path_Clean_rooted Let_def)
  then show ?thesis using False eq by (simp add: path_Join_def)
qed

lemma pathHasPrefix_empty [simp]: "pathHasPrefix s []"
  by (simp add: pathHasPrefix_def rawHasPrefix_def)

lemma pathTrimPrefix_empty:
  assumes "list_all clean_elem es"
  shows "pathTrimPrefix (rooted_path es) [] = (if es = [] then [] else tl (rooted_path es))"
proof (cases "es = []")
  case True
  have "pathTrimPrefix ''/'' [] = []" by code_simp
  then show ?thesis using True by (simp add: rooted_path_def)
next
  case False
  have "strings_TrimPrefix (''/'' @ tl (rooted_path es)) ''/'' = tl (rooted_path es)"
    by (rule TrimPrefix_append)
  then show ?thesis
    using False rooted_path_tl [OF False]
    by (simp add: pathTrimPrefix_def rawTrimPrefix_def strings_HasSuffix_def)
qed

subsection \<open>Escaping, parsing and printing rooted clean paths\<close>

lemma hex_all: "\<forall>n \<in> set [0..<16]. ishex (hexdigit n) \<and> unhex (hexdigit n) = n \<and>
   hexdigit n \<noteq> CHR ''#'' \<and> hexdigit n \<noteq> CHR ''?'' \<and> hexdigit n \<noteq> CHR ''/''"
  by code_simp

lemma hexdigit_props:
  assumes "n < 16"
  shows "ishex (hexdigit n)" "unhex (hexdigit n) = n"
    "hexdigit n \<noteq> CHR ''#''" "hexdigit n \<noteq> CHR ''?''" "hexdigit n \<noteq> CHR ''/''"
  using hex_all assms by auto

lemma of_char_bounds: "(of_char c :: nat) div 16 < 16" "(of_char c :: nat) mod 16 < 16"
proof -
  have "(of_char c :: nat) < 256" by (rule nat_of_char_less_256) 
  then show "(of_char c :: nat) div 16 < 16" by (simp add: less_mult_imp_div_less)
  show "(of_char c :: nat) mod 16 < 16" by simp
qed

lemma char_of_recombine: "char_of ((of_char c :: nat) div 16 * 16 + of_char c mod 16) = c"
  by simp

lemma escape_path_Nil [simp]: "escape [] encodePath = []"
  by (simp add: escape_def)

lemma escape_path_Cons: "escape (c # s) encodePath = esc1 c @ escape s encodePath"
  by (simp add: escape_def esc1_def)

lemma escape_path_append: "escape (s @ t) encodePath = escape s encodePath @ escape t encodePath"
  by (simp add: escape_def)

lemma shouldEscape_special [simp]:
  "shouldEscape CHR ''%'' encodePath" "shouldEscape CHR ''#'' encodePath"
  "shouldEscape CHR ''?'' encodePath" "\<not> shouldEscape CHR ''/'' encodePath"
  by code_simp+

lemma esc1_slash [simp]: "esc1 CHR ''/'' = ''/''"
  by (simp add: esc1_def)

lemma esc1_chars: "x \<in> set (esc1 c) \<Longrightarrow> x \<noteq> CHR ''#'' \<and> x \<noteq> CHR ''?''"
  using hexdigit_props(3,4) [OF of_char_bounds(1), of c] hexdigit_props(3,4) [OF of_char_bounds(2), of c]
  by (auto simp: esc1_def split: if_splits)

lemma escape_chars: "x \<in> set (escape s encodePath) \<Longrightarrow> x \<noteq> CHR ''#'' \<and> x \<noteq> CHR ''?''"
  by (induction s) (auto simp: escape_path_Cons dest: esc1_chars)

lemma esc1_hd: "c \<noteq> CHR ''/'' \<Longrightarrow> hd (esc1 c @ s) \<noteq> CHR ''/''"
  by (simp add: esc1_def)

lemma unescape_check_esc1:
  "unescape_check (esc1 c @ s) encodePath = unescape_check s encodePath"
  using hexdigit_props(1) [OF of_char_bounds(1), of c] hexdigit_props(1) [OF of_char_bounds(2), of c]
  by (auto simp: esc1_def)

lemma unescape_check_escape: "unescape_check (escape s encodePath) encodePath = None"
  by (induction s) (simp_all add: escape_path_Cons unescape_check_esc1)

lemma unescape_decode_plain:
  "c \<noteq> CHR ''%'' \<Longrightarrow> unescape_decode (c # s) encodePath = c # unescape_decode s encodePath"
  by (cases "(c # s, encodePath)" rule: unescape_decode.cases) auto

lemma not_escaped_not_percent: "\<not> shouldEscape c encodePath \<Longrightarrow> c \<noteq> CHR ''%''"
  by auto

lemma unescape_decode_esc1:
  "unescape_decode (esc1 c @ s) encodePath = c # unescape_decode s encodePath"
  using not_escaped_not_percent [of c] hexdigit_props(2) [OF of_char_bounds(1), of c] hexdigit_props(2) [OF of_char_bounds(2), of c]
  by (auto simp: esc1_def unescape_decode_plain)

lemma unescape_decode_escape: "unescape_decode (escape s encodePath) encodePath = s"
  by (induction s) (simp_all add: escape_path_Cons unescape_decode_esc1)

lemma unescape_decode_no_percent:
  "CHR ''%'' \<notin> set s \<Longrightarrow> unescape_decode s encodePath = s"
  by (induction s) (auto simp: unescape_decode_plain)

lemma unescape_escape: "unescape (escape s encodePath) encodePath = Inr s"
  using unescape_decode_no_percent [of "escape s encodePath"]
  by (auto simp: unescape_def unescape_check_escape unescape_decode_escape)

lemma setPath_escape:
  "setPath u (escape p encodePath) = Inr (u\<lparr>Path := p, RawPath := []\<rparr>)"
  by (simp add: setPath_def unescape_escape)

lemma Index_absent: "c \<notin> set s \<Longrightarrow> strings_Index s [c] = None"
  by (induction s) (auto simp: strings_HasPrefix_def)

lemma split_at_absent: "c \<notin> set s \<Longrightarrow> split_at s [c] cutc = (s, [])"
  by (simp add: split_at_def Index_absent)

lemma HasSuffix_absent: "c \<notin> set s \<Longrightarrow> \<not> strings_HasSuffix s [c]"
proof (cases "s = []")
  case True
  then show ?thesis by (simp add: strings_HasSuffix_def)
next
  case False
  assume "c \<notin> set s"
  then show ?thesis using False last_in_set [OF False] by (auto simp: HasSuffix_single)
qed

text \<open>The escaped form of a rooted clean path.\<close>

lemma escape_rooted_path_Cons:
  "escape (rooted_path es) encodePath = CHR ''/'' # tl (escape (rooted_path es) encodePath)"
  by (cases es) (simp_all add: rooted_path_def escape_path_Cons)

lemma escape_rooted_path_no_double_slash:
  assumes "list_all clean_elem es"
  shows "\<not> strings_HasPrefix (escape (rooted_path es) encodePath) ''//''"
proof (cases es)
  case Nil
  then show ?thesis by (simp add: rooted_path_def escape_path_Cons strings_HasPrefix_def)
next
  case (Cons e es')
  then obtain c cs where e: "e = c # cs" "c \<noteq> CHR ''/''"
    using assms by (cases e) (auto simp: clean_elem_def)
  have "escape (rooted_path es) encodePath =
          CHR ''/'' # esc1 c @ escape (cs @ concat (map (\<lambda>e. CHR ''/'' # e) es')) encodePath"
    using Cons e by (simp add: rooted_path_def escape_path_Cons)
  moreover have "hd (esc1 c @ escape (cs @ concat (map (\<lambda>e. CHR ''/'' # e) es')) encodePath) \<noteq> CHR ''/''"
    using e(2) by (rule esc1_hd)
  moreover have "esc1 c @ escape (cs @ concat (map (\<lambda>e. CHR ''/'' # e) es')) encodePath \<noteq> []"
    by (simp add: esc1_def)
  ultimately show ?thesis
    by (cases "esc1 c @ escape (cs @ concat (map (\<lambda>e. CHR ''/'' # e) es')) encodePath")
       (auto simp: strings_HasPrefix_def)
qed

lemma parse_rooted:
  assumes "list_all clean_elem es"
  shows "url_Parse (escape (rooted_path es) encodePath) = Inr (empty_URL\<lparr>Path := rooted_path es\<rparr>)"
proof -
  let ?q = "escape (rooted_path es) encodePath"
  obtain t where q: "?q = CHR ''/'' # t"
    using escape_rooted_path_Cons [of es] by blast
  have nohash: "CHR ''#'' \<notin> set ?q" and noq: "CHR ''?'' \<notin> set ?q"
    using escape_chars [of _ "rooted_path es"] by blast+
  have gs: "getscheme ?q = Inr ([], ?q)"
    unfolding q by (simp add: getscheme_def byte_in_def)
  have ns: "?q \<noteq> ''*''" unfolding q by simp
  have hp: "strings_HasPrefix ?q ''/''" unfolding q by (simp add: strings_HasPrefix_def)
  have nd: "\<not> strings_HasPrefix ?q ''//''"
    using assms by (rule escape_rooted_path_no_double_slash)
  have "parse ?q = Inr (empty_URL\<lparr>Path := rooted_path es\<rparr>)"
    using ns gs hp nd HasSuffix_absent [OF noq] split_at_absent [OF noq]
    by (simp add: parse_def Let_def strings_ToLower_def setPath_escape empty_URL_def)
  then show ?thesis
    using split_at_absent [OF nohash] by (simp add: url_Parse_def)
qed

lemma parseAuthority_empty: "parseAuthority [] = Inr (None, [])"
  by code_simp

lemma ToLower_file: "strings_ToLower ''file'' = ''file''"
  by code_simp

lemma parse_file_rooted:
  assumes "list_all clean_elem es"
  shows "url_Parse (''file://'' @ escape (rooted_path es) encodePath) =
           Inr (empty_URL\<lparr>Scheme := ''file'', Path := rooted_path es\<rparr>)"
proof -
  let ?q = "escape (rooted_path es) encodePath"
  obtain t where q: "?q = CHR ''/'' # t"
    using escape_rooted_path_Cons [of es] by blast
  have nohash: "CHR ''#'' \<notin> set (''file://'' @ ?q)" and noq: "CHR ''?'' \<notin> set (''//'' @ ?q)"
    using escape_chars [of _ "rooted_path es"] by auto
  have gs: "getscheme (''file://'' @ ?q) = Inr (''file'', ''//'' @ ?q)"
    by (simp add: getscheme_def byte_in_def)
  have hp: "strings_HasPrefix (''//'' @ ?q) ''/''" "strings_HasPrefix (''//'' @ ?q) ''//''"
    by (simp_all add: strings_HasPrefix_def)
  have sp: "split_at ?q ''/'' False = ([], ?q)"
    unfolding q by (simp add: split_at_def strings_HasPrefix_def)
  have "parse (''file://'' @ ?q) = Inr (empty_URL\<lparr>Scheme := ''file'', Path := rooted_path es\<rparr>)"
    using gs hp HasSuffix_absent [OF noq] split_at_absent [OF noq] sp
    by (simp add: parse_def Let_def ToLower_file setPath_escape empty_URL_def parseAuthority_empty)
  then show ?thesis
    using split_at_absent [OF nohash] by (simp add: url_Parse_def)
qed

lemma EscapedPath_rooted:
  "EscapedPath (empty_URL\<lparr>Scheme := sch, Path := rooted_path es\<rparr>) = escape (rooted_path es) encodePath"
proof -
  have "rooted_path es \<noteq> ''*''"
    by (cases es) (simp_all add: rooted_path_def)
  then show ?thesis by (simp add: EscapedPath_def empty_URL_def)
qed

lemma String_file_rooted:
  "URL_String (empty_URL\<lparr>Scheme := ''file'', Path := rooted_path es\<rparr>) =
     ''file://'' @ escape (rooted_path es) encodePath"
  using rooted_path_nonempty [of es]
  by (simp add: URL_String_def Let_def EscapedPath_rooted) (simp add: empty_URL_def)

lemma String_rooted:
  "URL_String (empty_URL\<lparr>Path := rooted_path es\<rparr>) = escape (rooted_path es) encodePath"
proof -
  let ?q = "escape (rooted_path es) encodePath"
  obtain t where q: "?q = CHR ''/'' # t"
    using escape_rooted_path_Cons [of es] by blast
  have ep: "EscapedPath (empty_URL\<lparr>Path := rooted_path es\<rparr>) = ?q"
    using EscapedPath_rooted [where sch = "[]" and es = es] by (simp add: empty_URL_def)
  have "\<not> (case strings_Index ?q '':'' of None \<Rightarrow> False
            | Some i \<Rightarrow> strings_Index (take i ?q) ''/'' = None)"
    unfolding q by (auto simp: strings_HasPrefix_def split: option.splits)
  then show ?thesis
    by (simp add: URL_String_def Let_def ep) (simp add: empty_URL_def)
qed

subsection \<open>The translators on rooted clean paths\<close>

lemma ToSlash_id [simp]: "filepath_ToSlash p = p"
  by (simp add: filepath_ToSlash_def os_PathSeparator_def)

lemma parse_prefixed:
  assumes "list_all clean_elem es" and "pre = [] \<or> pre = ''file://''"
  shows "url_Parse (pre @ escape (rooted_path es) encodePath) =
           Inr (empty_URL\<lparr>Scheme := (if pre = [] then [] else ''file''), Path := rooted_path es\<rparr>)"
  using assms parse_rooted [of es] parse_file_rooted [of es]
  by (auto simp: empty_URL_def)

lemma String_prefixed:
  assumes "pre = [] \<or> pre = ''file://''"
  shows "URL_String (empty_URL\<lparr>Scheme := (if pre = [] then [] else ''file''), Path := rooted_path es\<rparr>) =
           pre @ escape (rooted_path es) encodePath"
  using assms String_rooted [of es] String_file_rooted [of es]
  by (auto simp: empty_URL_def)

lemma probablyFileURI_prefixed:
  "probablyFileURI (empty_URL\<lparr>Scheme := (if pre = [] then [] else ''file''), Path := rooted_path es\<rparr>)"
  by (simp add: probablyFileURI_def)

lemma clientToServerURI_rooted:
  assumes "list_all clean_elem es" and "pre = [] \<or> pre = ''file://''"
    and "list_all clean_elem cs"
  shows "clientToServerURI (pre @ escape (rooted_path es) encodePath) (rooted_path cs) =
           pre @ escape (rooted_path (cs @ es)) encodePath"
    and "clientToServerURI (pre @ escape (rooted_path es) encodePath) [] =
           pre @ escape (rooted_path es) encodePath"
  using String_prefixed [OF assms(2), of "cs @ es"] String_prefixed [OF assms(2), of es]
  by (simp_all add: clientToServerURI_def clientToServerURI_run_def
        parse_prefixed [OF assms(1,2)] probablyFileURI_prefixed
        path_Join_rooted [OF assms(3,1)] path_Join_empty_first [OF assms(1)])

lemma serverToClientURI_rooted:
  assumes "list_all clean_elem es" and "pre = [] \<or> pre = ''file://''"
    and "list_all clean_elem cs"
  shows "serverToClientURI (pre @ escape (rooted_path (cs @ es)) encodePath) (rooted_path cs) =
           pre @ escape (rooted_path es) encodePath"
    and "serverToClientURI (pre @ escape (rooted_path es) encodePath) [] =
           pre @ escape (rooted_path es) encodePath"
proof -
  have ces: "list_all clean_elem (cs @ es)" using assms by simp
  show "serverToClientURI (pre @ escape (rooted_path (cs @ es)) encodePath) (rooted_path cs) =
           pre @ escape (rooted_path es) encodePath"
    using String_prefixed [OF assms(2), of es]
    by (simp add: serverToClientURI_def serverToClientURI_run_def
        parse_prefixed [OF ces assms(2)] probablyFileURI_prefixed
        pathHasPrefix_under [OF assms(3,1)] pathTrimPrefix_under [OF assms(3,1)]
        path_Join_root_rest [OF assms(1)])
  show "serverToClientURI (pre @ escape (rooted_path es) encodePath) [] =
           pre @ escape (rooted_path es) encodePath"
    using String_prefixed [OF assms(2), of es]
    by (simp add: serverToClientURI_def serverToClientURI_run_def
        parse_prefixed [OF assms(1,2)] probablyFileURI_prefixed
        pathTrimPrefix_empty [OF assms(1)] path_Join_root_rest [OF assms(1)])
qed

subsection \<open>The two round trips\<close>

text \<open>
  Claim C1, as stated, fails: \<open>path.Join\<close> cleans the joined path, so the trailing slash
  of the client identifier \<open>/a/\<close> (empty scheme, non-empty path) is lost on the way to
  the server and does not come back.
\<close>

theorem client_round_trip_trailing_slash:
  "url_Parse ''/a/'' = Inr (empty_URL\<lparr>Path := ''/a/''\<rparr>) \<and>
   clientToServerURI ''/a/'' ''/cache'' = ''/cache/a'' \<and>
   serverToClientURI (clientToServerURI ''/a/'' ''/cache'') ''/cache'' = ''/a'' \<and>
   serverToClientURI (clientToServerURI ''/a/'' ''/cache'') ''/cache'' \<noteq> ''/a/''"
  by code_simp

text \<open>
  Claim C1, amended. Let the identifier be a rooted clean path in its escaped form, alone
  or after \<open>file://\<close>, and let the cache directory be empty or a rooted clean path. Then
  translating to the server and back gives the identifier again.
\<close>

theorem client_round_trip:
  assumes "pre = [] \<or> pre = ''file://''"
    and "list_all clean_elem es" and "list_all clean_elem cs"
    and "c = [] \<or> c = rooted_path cs"
  shows "serverToClientURI (clientToServerURI (pre @ escape (rooted_path es) encodePath) c) c =
           pre @ escape (rooted_path es) encodePath"
  using assms(4) clientToServerURI_rooted [OF assms(2,1,3)] serverToClientURI_rooted [OF assms(2,1,3)]
  by auto

lemma round_trip_example:
  "list_all clean_elem [''a'', ''b.json''] \<and> list_all clean_elem [''cache'', ''S1''] \<and>
   escape (rooted_path [''a'', ''b.json'']) encodePath = ''/a/b.json'' \<and>
   rooted_path [''cache'', ''S1''] = ''/cache/S1'' \<and>
   rooted_path ([''cache'', ''S1''] @ [''a'', ''b.json'']) = ''/cache/S1/a/b.json'' \<and>
   escape (rooted_path ([''cache'', ''S1''] @ [''a'', ''b.json''])) encodePath = ''/cache/S1/a/b.json''"
  by code_simp

theorem client_round_trip_witness:
  "list_all clean_elem [''a'', ''b.json''] \<and> list_all clean_elem [''cache'', ''S1''] \<and>
   serverToClientURI (clientToServerURI ''file:///a/b.json'' ''/cache/S1'') ''/cache/S1'' =
     ''file:///a/b.json''"
  using client_round_trip
    [of "''file://''" "[''a'', ''b.json'']" "[''cache'', ''S1'']" "''/cache/S1''"]
    round_trip_example
  by simp

text \<open>
  Claim C2, as stated, fails for the same reason: the server identifier \<open>/cache/a/\<close> lies
  under the cache directory \<open>/cache\<close>, and the round trip returns \<open>/cache/a\<close>.
\<close>

theorem server_round_trip_trailing_slash:
  "url_Parse ''/cache/a/'' = Inr (empty_URL\<lparr>Path := ''/cache/a/''\<rparr>) \<and>
   pathHasPrefix ''/cache/a/'' ''/cache'' \<and>
   serverToClientURI ''/cache/a/'' ''/cache'' = ''/a'' \<and>
   clientToServerURI (serverToClientURI ''/cache/a/'' ''/cache'') ''/cache'' = ''/cache/a'' \<and>
   clientToServerURI (serverToClientURI ''/cache/a/'' ''/cache'') ''/cache'' \<noteq> ''/cache/a/''"
  by code_simp

text \<open>
  Claim C2, amended. Let the cache directory be a rooted clean path and the identifier's
  path a rooted clean path that continues it (or let the cache directory be empty and the
  path any rooted clean path), the identifier being the escaped path alone or after
  \<open>file://\<close>. Then the path passes the prefix test, and translating to the client and
  back gives the identifier again.
\<close>

theorem server_round_trip:
  assumes "pre = [] \<or> pre = ''file://''"
    and "list_all clean_elem es" and "list_all clean_elem cs"
    and "(c = rooted_path cs \<and> p = rooted_path (cs @ es)) \<or> (c = [] \<and> p = rooted_path es)"
  shows "pathHasPrefix p c \<and>
         clientToServerURI (serverToClientURI (pre @ escape p encodePath) c) c =
           pre @ escape p encodePath"
  using assms(4) clientToServerURI_rooted [OF assms(2,1,3)] serverToClientURI_rooted [OF assms(2,1,3)]
    pathHasPrefix_under [OF assms(3,2)]
  by auto

theorem server_round_trip_witness:
  "list_all clean_elem [''a'', ''b.json''] \<and> list_all clean_elem [''cache'', ''S1''] \<and>
   pathHasPrefix ''/cache/S1/a/b.json'' ''/cache/S1'' \<and>
   clientToServerURI (serverToClientURI ''file:///cache/S1/a/b.json'' ''/cache/S1'') ''/cache/S1'' =
     ''file:///cache/S1/a/b.json''"
proof -
  have e: "escape ''/cache/S1/a/b.json'' encodePath = ''/cache/S1/a/b.json''"
    by code_simp
  show ?thesis
    using server_round_trip
      [of "''file://''" "[''a'', ''b.json'']" "[''cache'', ''S1'']" "''/cache/S1''"
          "''/cache/S1/a/b.json''"]
      round_trip_example e
    by simp
qed

section \<open>Properties of the workspace cache\<close>

text \<open>
  Claim C9, as stated, fails: \<open>cleanWorkspaceCache\<close> returns the error of
  \<open>os.RemoveAll\<close> to its caller, and the only line it logs is written before the removal.
  With a removal that fails, the caller receives the error.
\<close>

theorem cleanWorkspaceCache_escalates:
  "cleanWorkspaceCache (\<lambda>fs path. (Some (''unlinkat '' @ path @ '': permission denied''), fs))
     ''/cache'' \<lparr>sessionID = ''S1''\<rparr> () =
   (Some ''unlinkat /cache/S1: permission denied'', (),
    [LogLine ''Removing workspace cache from /cache/S1'' None])"
  by code_simp

text \<open>
  Claim C9, amended. \<open>cleanWorkspaceCache\<close> logs that it removes the session's cache
  directory, has exactly that directory, \<open>filepath.Join(*cacheDir, sessionID)\<close>, removed
  recursively, and returns to its caller what \<open>os.RemoveAll\<close> returned, \<open>nil\<close> or the
  error; it logs nothing about a failure.
\<close>

theorem cleanWorkspaceCache_returns_removal_result:
  "cleanWorkspaceCache os_RemoveAll cacheDir p fs =
     (fst (os_RemoveAll fs (filepath_Join [cacheDir, sessionID p])),
      snd (os_RemoveAll fs (filepath_Join [cacheDir, sessionID p])),
      [LogLine (''Removing workspace cache from '' @ filepath_Join [cacheDir, sessionID p]) None])"
  by (simp add: cleanWorkspaceCache_def workspaceCacheDir_def Let_def split_beta)

section \<open>Properties of the structural walker\<close>

subsection \<open>Identifier fields of mappings\<close>

lemma walk_uri_example:
  "WalkURIFields 2 again (VMap 0) (Some (\<lambda>u. clientToServerURI u ''/cache/S1''))
     [CMap [(''uri'', VStr ''file:///a/b.json'')]] =
   Inr [CMap [(''uri'', VDocURI ''file:///cache/S1/a/b.json'')]]"
proof -
  have "clientToServerURI ''file:///a/b.json'' ''/cache/S1'' = ''file:///cache/S1/a/b.json''"
    by code_simp
  then show ?thesis
    by (simp add: WalkURIFields_def numeral_2_eq_2 heap_get_def heap_put_def uri_keys_def)
qed

text \<open>
  Claim C5. The walk should never fail, with or without a rewrite function. Without one
  (\<open>update\<close> nil) it does fail on a \<open>changes\<close> mapping with an entry: the two other uses of
  \<open>update\<close> are guarded by \<open>update != nil\<close>, the one under \<open>parent == "changes"\<close> is
  not, and the call of the nil function panics, whatever nesting of calls is allowed and
  whatever the loops produce.
\<close>

theorem walk_nil_update_panics:
  "WalkURIFields (Suc (Suc d)) again (VMap 0) None
     [CMap [(''changes'', VMap 1)], CMap [(''file:///a.json'', VSlice 2)], CSlice []] =
   Inl NilFuncCall"
  by (simp add: WalkURIFields_def heap_get_def uri_keys_def)

subsection \<open>The keys of a changes mapping\<close>

text \<open>When the loop does not produce the entry it has inserted, the key of the example
  is rewritten once.\<close>

lemma walk_changes_example:
  "WalkURIFields 3 [] (VMap 0) (Some (\<lambda>u. clientToServerURI u ''/cache/S1''))
     [CMap [(''changes'', VMap 1)], CMap [(''file:///a.json'', VSlice 2)], CSlice []] =
   Inr [CMap [(''changes'', VMap 1)], CMap [(''file:///cache/S1/a.json'', VSlice 2)], CSlice []]"
  by code_simp

text \<open>
  Claim C6. Under \<open>changes\<close> every key should be replaced by its rewritten form, the
  value being stored under the new key. The loop inserts the new key into the map it
  ranges over. When the loop produces the inserted entry, as Go allows, that entry does
  not have one of the identifier keys, so it is taken for a key of the mapping again and
  rewritten a second time: the key \<open>file:///a.json\<close> ends as
  \<open>file:///cache/S1/cache/S1/a.json\<close>, and its rewritten form
  \<open>file:///cache/S1/a.json\<close> is not a key of the result.
\<close>

theorem changes_key_rewritten_twice:
  "clientToServerURI ''file:///a.json'' ''/cache/S1'' = ''file:///cache/S1/a.json'' \<and>
   WalkURIFields 3 [''file:///cache/S1/a.json''] (VMap 0)
     (Some (\<lambda>u. clientToServerURI u ''/cache/S1''))
     [CMap [(''changes'', VMap 1)], CMap [(''file:///a.json'', VSlice 2)], CSlice []] =
   Inr [CMap [(''changes'', VMap 1)],
        CMap [(''file:///cache/S1/cache/S1/a.json'', VSlice 2)], CSlice []]"
  by code_simp

subsection \<open>Structs\<close>

text \<open>A record of the shape of a location, reached through a pointer: the field \<open>URI\<close>
  is rewritten, the range held by value is walked and left as it is.\<close>

lemma walk_location_example:
  "WalkURIFields 4 [] (VPtr (Some 0)) (Some (\<lambda>u. clientToServerURI u ''/cache/S1''))
     [CVal (VStruct [(''URI'', True, VDocURI ''file:///a''),
                     (''Range'', True, VStruct [(''Start'', True, VStruct [(''Line'', True, VScalar ''1'')]),
                                               (''End'', True, VStruct [(''Line'', True, VScalar ''2'')])])])] =
   Inr [CVal (VStruct [(''URI'', True, VDocURI ''file:///cache/S1/a''),
                       (''Range'', True, VStruct [(''Start'', True, VStruct [(''Line'', True, VScalar ''1'')]),
                                                 (''End'', True, VStruct [(''Line'', True, VScalar ''2'')])])])]"
  by code_simp

text \<open>Such a record inside a sequence inside a mapping inside a mapping.\<close>

lemma walk_nested_location_example:
  "WalkURIFields 5 [] (VMap 0) (Some (\<lambda>u. clientToServerURI u ''/cache/S1''))
     [CMap [(''result'', VMap 1)], CMap [(''locations'', VSlice 2)], CSlice [VPtr (Some 3)],
      CVal (VStruct [(''URI'', True, VDocURI ''file:///a'')])] =
   Inr [CMap [(''result'', VMap 1)], CMap [(''locations'', VSlice 2)], CSlice [VPtr (Some 3)],
        CVal (VStruct [(''URI'', True, VDocURI ''file:///cache/S1/a'')])]"
  by code_simp

text \<open>A struct that is not behind a pointer is not addressable: with a rewrite function
  the walk panics in \<open>SetString\<close> when such a struct has a string field \<open>URI\<close>.\<close>

lemma walk_struct_by_value_panics:
  "WalkURIFields (Suc (Suc d)) again (VSlice 0) (Some f)
     [CSlice [VStruct [(''URI'', True, VDocURI u)]]] =
   Inl SetStringUnaddressable"
  by (simp add: WalkURIFields_def heap_get_def walk_struct_def set_URI_def)

text \<open>A struct that two pointer fields share is reached twice, and its \<open>URI\<close> is
  rewritten twice.\<close>

lemma walk_shared_struct_rewritten_twice:
  "WalkURIFields 3 [] (VPtr (Some 0)) (Some (\<lambda>u. clientToServerURI u ''/cache/S1''))
     [CVal (VStruct [(''A'', True, VPtr (Some 1)), (''B'', True, VPtr (Some 1))]),
      CVal (VStruct [(''URI'', True, VDocURI ''/a'')])] =
   Inr [CVal (VStruct [(''A'', True, VPtr (Some 1)), (''B'', True, VPtr (Some 1))]),
        CVal (VStruct [(''URI'', True, VDocURI ''/cache/S1/cache/S1/a'')])]"
  by code_simp

text \<open>On a struct that points to itself the walk does not return: it exhausts every
  bound on the nesting of its calls.\<close>

lemma walk_cyclic_struct_exhausts:
  "walk d again None (VPtr (Some 0)) parent [CVal (VStruct [(''Next'', True, VPtr (Some 0))])] =
     Inl StackExhausted"
  by (induction d arbitrary: parent)
     (simp_all add: heap_get_def walk_struct_def set_URI_def)

text \<open>The elements of a slice that is walked itself are walked: here the struct behind
  the pointer in the slice is rewritten.\<close>

lemma walk_slice_elements_example:
  "WalkURIFields 3 [] (VSlice 1) (Some (\<lambda>u. clientToServerURI u ''/cache/S1''))
     [CVal (VStruct [(''Items'', True, VSlice 1)]), CSlice [VPtr (Some 2)],
      CVal (VStruct [(''URI'', True, VDocURI ''file:///a'')])] =
   Inr [CVal (VStruct [(''Items'', True, VSlice 1)]), CSlice [VPtr (Some 2)],
        CVal (VStruct [(''URI'', True, VDocURI ''file:///cache/S1/a'')])]"
  by code_simp

text \<open>
  Claim C7. After the field \<open>URI\<close> of a struct the walk should enter every field that is
  a nested container or record, so that the identifiers in records are found at every
  depth. It enters only the fields of kind pointer, struct or array. The same slice as in
  \<open>walk_slice_elements_example\<close>, now the field \<open>Items\<close> of a struct, is not entered,
  whatever nesting of calls is allowed and whatever the loops produce: the record in it
  keeps its \<open>URI\<close>, and the store is as before.
\<close>

theorem struct_in_slice_field_skipped:
  "WalkURIFields (Suc (Suc d)) again (VPtr (Some 0)) (Some f)
     [CVal (VStruct [(''Items'', True, VSlice 1)]), CSlice [VPtr (Some 2)],
      CVal (VStruct [(''URI'', True, VDocURI ''file:///a'')])] =
   Inr [CVal (VStruct [(''Items'', True, VSlice 1)]), CSlice [VPtr (Some 2)],
        CVal (VStruct [(''URI'', True, VDocURI ''file:///a'')])]"
  by (simp add: WalkURIFields_def heap_get_def walk_struct_def set_URI_def)

text \<open>An array field passes the test of the kind, but the walk of an array changes
  nothing: the record in it keeps its \<open>URI\<close> as well.\<close>

lemma struct_in_array_field_skipped:
  "WalkURIFields (Suc (Suc (Suc d))) again (VPtr (Some 0)) (Some f)
     [CVal (VStruct [(''Pair'', True, VArray [VPtr (Some 1)])]),
      CVal (VStruct [(''URI'', True, VDocURI ''file:///a'')])] =
   Inr [CVal (VStruct [(''Pair'', True, VArray [VPtr (Some 1)])]),
        CVal (VStruct [(''URI'', True, VDocURI ''file:///a'')])]"
  by (simp add: WalkURIFields_def heap_get_def walk_struct_def set_URI_def)

end
